theory Spec2Isabelle
  imports Complex_Main "HOL-Library.List_Lexorder" "HOL-Library.Char_ord"
begin

section \<open>Data model\<close>

text \<open>
  The module \<open>dku_data_drift/model_tools.py\<close> holds a multi-class discrimination score
  (\<open>mroc_auc_score\<close>), a density estimate on a grid (\<open>format_proba_density\<close>) and a
  surrogate model (\<open>SurrogateModel\<close>). Python exceptions are values of \<open>error\<close>; a
  function that can raise returns \<open>error + 'a\<close>. The probabilities, weights and scores
  of the discrimination score are modelled as reals; the density estimate, whose
  branches depend on the float arithmetic, takes that arithmetic as a parameter.
\<close>

datatype error = ValueError string | IndexError | KeyError string

text \<open>
  The prediction matrix is a two-dimensional array: its shape is \<open>(length rows, ncols)\<close>
  and every row has \<open>ncols\<close> entries. The column count is a field of its own, since an
  array with no row still has one.
\<close>

record matrix =
  ncols :: nat
  rows :: "real list list"

section \<open>The multi-class discrimination score\<close>

text \<open>\<open>np.unique\<close>: the sorted distinct values of an array.\<close>

definition unique :: "'a::linorder list \<Rightarrow> 'a list" where
  "unique ar = sort (remdups ar)"

text \<open>\<open>np.in1d(ar1, ar2)\<close>: for each element of \<open>ar1\<close>, whether it occurs in \<open>ar2\<close>.\<close>

definition in1d :: "'a list \<Rightarrow> 'a list \<Rightarrow> bool list" where
  "in1d ar1 ar2 = map (\<lambda>x. x \<in> set ar2) ar1"

text \<open>
  Indexing \<open>xs[mask]\<close> with a boolean mask keeps the positions where the mask holds; a
  mask of another length than the indexed axis raises IndexError.
\<close>

definition boolean_index :: "bool list \<Rightarrow> 'a list \<Rightarrow> error + 'a list" where
  "boolean_index msk xs =
     (if length msk \<noteq> length xs then Inl IndexError
      else Inr (map snd (filter fst (zip msk xs))))"

text \<open>
  Indexing \<open>m[:, i]\<close>: the column of index \<open>i\<close>. As numpy does, a negative index counts
  from the last column, and an index outside \<open>-ncols \<le> i < ncols\<close> raises IndexError.
\<close>

definition column :: "matrix \<Rightarrow> int \<Rightarrow> error + real list" where
  "column m i =
     (let n = int (ncols m); k = (if i < 0 then n + i else i)
      in if 0 \<le> k \<and> k < n then Inr (map (\<lambda>r. r ! nat k) (rows m)) else Inl IndexError)"

text \<open>\<open>classes.index(c)\<close>: the first position of \<open>c\<close>, ValueError when it is absent.\<close>

fun list_index :: "'a list \<Rightarrow> 'a \<Rightarrow> error + nat" where
  "list_index [] c = Inl (ValueError ''value is not in list'')"
| "list_index (x # xs) c =
     (if x = c then Inr 0
      else case list_index xs c of Inl e \<Rightarrow> Inl e | Inr k \<Rightarrow> Inr (Suc k))"

text \<open>\<open>y_true.map(f)\<close> for an \<open>f\<close> that can raise: the first failure is the result.\<close>

fun series_map :: "('a \<Rightarrow> error + 'b) \<Rightarrow> 'a list \<Rightarrow> error + 'b list" where
  "series_map f [] = Inr []"
| "series_map f (x # xs) =
     (case f x of Inl e \<Rightarrow> Inl e
      | Inr v \<Rightarrow> (case series_map f xs of Inl e \<Rightarrow> Inl e | Inr vs \<Rightarrow> Inr (v # vs)))"

text \<open>
  The builtin \<open>sum\<close> over a generator: the terms are produced and added in order, and the
  first term that raises ends the sum.
\<close>

fun sum_generator :: "(error + real) list \<Rightarrow> real \<Rightarrow> error + real" where
  "sum_generator [] acc = Inr acc"
| "sum_generator (t # ts) acc =
     (case t of Inl e \<Rightarrow> Inl e | Inr v \<Rightarrow> sum_generator ts (acc + v))"

text \<open>
  The binary discrimination score \<open>roc_auc_score(labels, scores, sample_weight)\<close> comes
  from a library. It checks that its arguments have the same number of samples and
  raises ValueError when they do not; the value it returns otherwise is a parameter of
  the model, a \<open>binary_score\<close>. Its labels are 0 and 1; the boolean vector
  \<open>y_true[mask] == i\<close> is passed as such a vector (False as 0, True as 1).
\<close>

type_synonym binary_score = "nat list \<Rightarrow> real list \<Rightarrow> real list option \<Rightarrow> real"

definition roc_auc_score ::
  "binary_score \<Rightarrow> nat list \<Rightarrow> real list \<Rightarrow> real list option \<Rightarrow> error + real" where
  "roc_auc_score auc y_true y_score sample_weight =
     (if length y_score \<noteq> length y_true \<or>
         (case sample_weight of None \<Rightarrow> False | Some sw \<Rightarrow> length sw \<noteq> length y_true)
      then Inl (ValueError ''Found input variables with inconsistent numbers of samples'')
      else Inr (auc y_true y_score sample_weight))"

text \<open>
  The labels are of any ordered type: \<open>np.unique\<close> sorts them. Only the multi-class case
  uses a label as the index of a column (\<open>y_predictions[mask][:, i]\<close>), where numpy takes an
  integer and raises IndexError for anything else; \<open>as_index\<close> gives the integer a label
  is, if it is one. For integer labels \<open>as_index\<close> is \<open>Some\<close>.
\<close>

text \<open>The inner function \<open>A(i, j)\<close> of \<open>mroc_auc_score\<close>, with the variables it closes over.\<close>

definition A ::
  "('a \<Rightarrow> int option) \<Rightarrow> binary_score \<Rightarrow> 'a list \<Rightarrow> matrix \<Rightarrow> real list option \<Rightarrow>
     'a \<Rightarrow> 'a \<Rightarrow> error + real" where
  "A as_index auc y_true y_predictions sample_weight i j =
     (let msk = in1d y_true [i, j] in
      case boolean_index msk y_true of Inl e \<Rightarrow> Inl e
      | Inr sel \<Rightarrow>
      let y_true_i = map (\<lambda>c. of_bool (c = i)) sel in
      case boolean_index msk (rows y_predictions) of Inl e \<Rightarrow> Inl e
      | Inr rs \<Rightarrow>
      case as_index i of None \<Rightarrow> Inl IndexError
      | Some k \<Rightarrow>
      case column (y_predictions\<lparr>rows := rs\<rparr>) k of Inl e \<Rightarrow> Inl e
      | Inr y_pred_i \<Rightarrow>
      (case sample_weight of
         None \<Rightarrow> roc_auc_score auc y_true_i y_pred_i None
       | Some sw \<Rightarrow>
           (case boolean_index msk sw of Inl e \<Rightarrow> Inl e
            | Inr sample_weight_i \<Rightarrow> roc_auc_score auc y_true_i y_pred_i (Some sample_weight_i))))"

definition mroc_auc_score ::
  "('a::linorder \<Rightarrow> int option) \<Rightarrow> binary_score \<Rightarrow> 'a list \<Rightarrow> matrix \<Rightarrow> real list option \<Rightarrow>
     error + real" where
  "mroc_auc_score as_index auc y_true y_predictions sample_weight =
     (let max_nb_classes = ncols y_predictions;
          classes = unique y_true;
          nb_classes = length classes
      in
      if nb_classes > max_nb_classes then
        Inl (ValueError ''Your test set contained more classes than the test set. Check your dataset or try a different split.'')
      else if nb_classes < 2 then
        Inl (ValueError ''Ended up with less than two-classes in the validation set.'')
      else if nb_classes = 2 then
        (case series_map (list_index classes) y_true of Inl e \<Rightarrow> Inl e
         | Inr y_true01 \<Rightarrow>
         case column y_predictions 1 of Inl e \<Rightarrow> Inl e
         | Inr col \<Rightarrow> roc_auc_score auc y_true01 col sample_weight)
      else
        (let C = 1 / real (nb_classes * (nb_classes - 1)) in
         case sum_generator
                [A as_index auc y_true y_predictions sample_weight i j.
                   i \<leftarrow> classes, j \<leftarrow> classes, i \<noteq> j] 0 of
           Inl e \<Rightarrow> Inl e
         | Inr s \<Rightarrow> Inr (C * s)))"

text \<open>
  A reference \<open>binary_score\<close>, for evaluating the model on concrete inputs: the
  weighted area under the ROC curve in its rank form, the weighted share of the pairs
  of a positive and a negative observation in which the positive one scores higher,
  a tie counting for one half. The theorems below hold for every \<open>binary_score\<close>.
\<close>

definition roc_auc :: binary_score where
  "roc_auc labels scores sample_weight =
     (let ws = (case sample_weight of None \<Rightarrow> replicate (length labels) 1 | Some sw \<Rightarrow> sw);
          obs = zip labels (zip scores ws);
          pos = [(s, w). (l, s, w) \<leftarrow> obs, l = 1];
          neg = [(s, w). (l, s, w) \<leftarrow> obs, l \<noteq> 1]
      in (\<Sum>(sp, wp) \<leftarrow> pos. \<Sum>(sn, wn) \<leftarrow> neg.
            wp * wn * (if sn < sp then 1 else if sn = sp then 1 / 2 else 0))
         / (sum_list (map snd pos) * sum_list (map snd neg)))"

subsection \<open>The score as the specification words it\<close>

text \<open>
  The binary case: the two observed labels go to 0 and 1 in ascending order, so the
  smaller label becomes 0 and the other one 1.
\<close>

definition remap_sorted :: "'a::linorder list \<Rightarrow> nat list" where
  "remap_sorted labels = map (\<lambda>c. if c = Min (set labels) then 0 else 1) labels"

text \<open>
  The multi-class case. \<open>restrict_rows labels xs i j\<close> keeps the entries of \<open>xs\<close> at the
  rows whose label is \<open>i\<close> or \<open>j\<close>.
\<close>

definition restrict_rows :: "'l list \<Rightarrow> 'a list \<Rightarrow> 'l \<Rightarrow> 'l \<Rightarrow> 'a list" where
  "restrict_rows labels xs i j = map snd (filter (\<lambda>(c, x). c = i \<or> c = j) (zip labels xs))"

text \<open>
  The score of the pair \<open>(i, j)\<close>: on the rows labelled \<open>i\<close> or \<open>j\<close>, membership in class
  \<open>i\<close> is the positive condition, the scores are the entries of the column of index \<open>i\<close>,
  and the sample weights, when given, are those of the same rows.
\<close>

definition pairwise_score ::
  "binary_score \<Rightarrow> int list \<Rightarrow> matrix \<Rightarrow> real list option \<Rightarrow> int \<Rightarrow> int \<Rightarrow> real" where
  "pairwise_score f labels P weights i j =
     f (map (\<lambda>c. if c = i then 1 else 0) (restrict_rows labels labels i j))
       (map (\<lambda>r. r ! nat i) (restrict_rows labels (rows P) i j))
       (map_option (\<lambda>sw. restrict_rows labels sw i j) weights)"

text \<open>
  The aggregate: the pair scores summed over all ordered pairs of distinct observed
  classes, divided by \<open>k * (k - 1)\<close> for \<open>k\<close> observed classes.
\<close>

definition hand_till :: "binary_score \<Rightarrow> int list \<Rightarrow> matrix \<Rightarrow> real list option \<Rightarrow> real" where
  "hand_till f labels P weights =
     (let k = card (set labels)
      in 1 / real (k * (k - 1)) *
         (\<Sum>i \<in> set labels. \<Sum>j \<in> set labels - {i}. pairwise_score f labels P weights i j))"

text \<open>
  The label vector and the sample weights, when given, have one entry for each row of
  the matrix (the invariant of the data model).
\<close>

definition aligned :: "'a list \<Rightarrow> matrix \<Rightarrow> real list option \<Rightarrow> bool" where
  "aligned labels P weights =
     (length labels = length (rows P) \<and>
      (case weights of None \<Rightarrow> True | Some sw \<Rightarrow> length sw = length labels))"

text \<open>Every label is the index of a column: \<open>0 \<le> c < ncols\<close>.\<close>

definition column_labels :: "int list \<Rightarrow> matrix \<Rightarrow> bool" where
  "column_labels labels P = list_all (\<lambda>c. 0 \<le> c \<and> c < int (ncols P)) labels"

text \<open>
  The matrix whose column of index \<open>c\<close> is the column of index \<open>\<sigma> c\<close> of \<open>P\<close>.
\<close>

definition permute_columns :: "(int \<Rightarrow> int) \<Rightarrow> matrix \<Rightarrow> matrix" where
  "permute_columns \<sigma> P =
     P\<lparr>rows := map (\<lambda>r. map (\<lambda>c. r ! nat (\<sigma> (int c))) [0..<ncols P]) (rows P)\<rparr>"

subsection \<open>Concrete inputs\<close>

definition P1 :: matrix where
  "P1 = \<lparr>ncols = 1, rows = [[1], [1]]\<rparr>"

definition P2 :: matrix where
  "P2 = \<lparr>ncols = 2, rows = [[0.8, 0.2], [0.3, 0.7], [0.6, 0.4], [0.1, 0.9]]\<rparr>"

definition P3 :: matrix where
  "P3 = \<lparr>ncols = 3, rows =
     [[0.7, 0.2, 0.1], [0.3, 0.5, 0.2], [0.2, 0.6, 0.2],
      [0.4, 0.35, 0.25], [0.1, 0.2, 0.7], [0.3, 0.3, 0.4]]\<rparr>"

definition swap01 :: "int \<Rightarrow> int" where
  "swap01 c = (if c = 0 then 1 else if c = 1 then 0 else c)"

section \<open>The density estimate\<close>

text \<open>
  A float value: a real number, one of the two infinities, or not-a-number.
\<close>

datatype fl = Finite real | PInf | MInf | NaN

definition isnan :: "fl \<Rightarrow> bool" where
  "isnan v = (v = NaN)"

text \<open>The comparison \<open>h <= 0\<close> of a float with zero; it is false for not-a-number.\<close>

fun le_zero :: "fl \<Rightarrow> bool" where
  "le_zero (Finite r) = (r \<le> 0)"
| "le_zero MInf = True"
| "le_zero PInf = False"
| "le_zero NaN = False"

text \<open>
  The data are finite floats, each taken as the real number it stands for, and a float
  literal as the decimal it is written with. What the float arithmetic computes from
  them, with its rounding, overflow and underflow, is a parameter of the model:
  \<open>np.std\<close> of the data, \<open>math.pow\<close> of the number of data and an exponent, and the product
  of two floats.
\<close>

record float_arith =
  np_std :: "real list \<Rightarrow> fl"
  math_pow :: "nat \<Rightarrow> real \<Rightarrow> fl"
  float_mul :: "fl \<Rightarrow> fl \<Rightarrow> fl"

text \<open>
  \<open>np.linspace(start, stop, num)\<close> with the end point included: \<open>num\<close> points
  \<open>k * step + start\<close> with \<open>step = (stop - start) / (num - 1)\<close>, the last one set to \<open>stop\<close>.
\<close>

definition linspace :: "real \<Rightarrow> real \<Rightarrow> nat \<Rightarrow> real list" where
  "linspace start stop num =
     (let dv = num - 1;
          step = (stop - start) / real dv;
          y = map (\<lambda>k. real k * step + start) [0..<num]
      in if 1 < num then y[num - 1 := stop] else y)"

text \<open>
  The kernel density estimator comes from a library and is a parameter of the model:
  \<open>kde h data sample_weight\<close> stands for
  \<open>KernelDensity(kernel='gaussian', bandwidth=h).fit(data, sample_weight)\<close>. It is either the
  error that the library raises (for a bandwidth or for weights it does not accept), or
  the fitted estimator, given by the value of \<open>np.exp(kde.score_samples(.))\<close> at each point.
\<close>

type_synonym kernel_density =
  "fl \<Rightarrow> real list \<Rightarrow> real list option \<Rightarrow> error + (real \<Rightarrow> fl)"

definition format_proba_density ::
  "float_arith \<Rightarrow> kernel_density \<Rightarrow> real list \<Rightarrow> real list option \<Rightarrow> real \<Rightarrow> real \<Rightarrow>
     error + (real \<times> fl) list" where
  "format_proba_density ar kde data sample_weight min_support max_support =
     (if length data = 0 then Inr []
      else
        let h = float_mul ar (float_mul ar (Finite 1.06) (np_std ar data))
                  (math_pow ar (length data) (- 0.2));
            h = (if le_zero h then Finite 0.06 else h);
            sample_weight = (if length (unique data) = 1 then None else sample_weight);
            X_plot = linspace min_support max_support 500
        in case kde h data sample_weight of
             Inl e \<Rightarrow> Inl e
           | Inr density \<Rightarrow>
               let Y_plot = [if \<not> isnan v then v else Finite 0. v \<leftarrow> map density X_plot]
               in Inr (zip X_plot Y_plot))"

subsection \<open>The density estimate as the specification words it\<close>

text \<open>
  The bandwidth \<open>1.06 * stddev(data) * n ^ (-0.2)\<close>, replaced by 0.06 when it is \<open><= 0\<close>.
\<close>

definition silverman_bandwidth :: "float_arith \<Rightarrow> real list \<Rightarrow> fl" where
  "silverman_bandwidth ar data =
     (let h = float_mul ar (float_mul ar (Finite 1.06) (np_std ar data))
                (math_pow ar (length data) (- 0.2))
      in if le_zero h then Finite 0.06 else h)"

text \<open>The weights of the fit: none when the data holds a single distinct value.\<close>

definition fit_weights :: "real list \<Rightarrow> real list option \<Rightarrow> real list option" where
  "fit_weights data weights = (if card (set data) = 1 then None else weights)"

text \<open>Not-a-number becomes 0; every other value stays.\<close>

definition nan_to_zero :: "fl \<Rightarrow> fl" where
  "nan_to_zero v = (if v = NaN then Finite 0 else v)"

fun isfinite :: "fl \<Rightarrow> bool" where
  "isfinite (Finite r) = True"
| "isfinite v = False"

subsection \<open>Concrete arithmetic and estimators\<close>

text \<open>
  The arithmetic without rounding, with the population standard deviation \<open>std\<close>, for
  evaluating the model on concrete inputs; the product follows the rules of the floats
  for infinities and not-a-number.
\<close>

definition std :: "real list \<Rightarrow> real" where
  "std a =
     (let n = real (length a); mean = sum_list a / n
      in sqrt (sum_list (map (\<lambda>x. (x - mean)\<^sup>2) a) / n))"

definition times_inf :: "bool \<Rightarrow> real \<Rightarrow> fl" where
  "times_inf positive_inf r =
     (if r = 0 then NaN else if (0 < r) = positive_inf then PInf else MInf)"

fun fl_times :: "fl \<Rightarrow> fl \<Rightarrow> fl" where
  "fl_times (Finite x) (Finite y) = Finite (x * y)"
| "fl_times NaN b = NaN"
| "fl_times a NaN = NaN"
| "fl_times PInf (Finite y) = times_inf True y"
| "fl_times MInf (Finite y) = times_inf False y"
| "fl_times (Finite x) PInf = times_inf True x"
| "fl_times (Finite x) MInf = times_inf False x"
| "fl_times PInf PInf = PInf"
| "fl_times MInf MInf = PInf"
| "fl_times PInf MInf = MInf"
| "fl_times MInf PInf = MInf"

definition exact :: float_arith where
  "exact =
     \<lparr>np_std = (\<lambda>a. Finite (std a)),
      math_pow = (\<lambda>n e. Finite (real n powr e)),
      float_mul = fl_times\<rparr>"

text \<open>
  The same arithmetic with a given float for \<open>np.std\<close>: in the doubles \<open>np.std\<close> is a small
  positive number on some constant data, where the exact standard deviation is 0, and
  infinite when a square overflows.
\<close>

definition with_std :: "fl \<Rightarrow> float_arith" where
  "with_std v = exact\<lparr>np_std := (\<lambda>a. v)\<rparr>"

text \<open>
  Estimators for evaluating the model. Each rejects what the library rejects with
  ValueError: a bandwidth that is not a positive finite number, and weights that are not
  one for each datum. \<open>gaussian\<close> is the weighted Gaussian kernel density estimate itself,
  without rounding; \<open>flat\<close> has a constant density; \<open>spiky\<close> is not-a-number at 0 and has
  the value of its bandwidth elsewhere.
\<close>

fun is_positive :: "fl \<Rightarrow> bool" where
  "is_positive (Finite r) = (0 < r)"
| "is_positive v = False"

definition validate :: "fl \<Rightarrow> real list \<Rightarrow> real list option \<Rightarrow> error option" where
  "validate h data weights =
     (if \<not> is_positive h then Some (ValueError ''bandwidth must be a positive finite number'')
      else case weights of
             None \<Rightarrow> None
           | Some sw \<Rightarrow>
               if length sw \<noteq> length data
               then Some (ValueError ''sample_weight has the wrong shape'')
               else None)"

definition gaussian_density :: "real \<Rightarrow> real list \<Rightarrow> real list \<Rightarrow> real \<Rightarrow> real" where
  "gaussian_density b data ws x =
     sum_list (map (\<lambda>(xi, wi). wi * exp (- ((x - xi)\<^sup>2 / (2 * b\<^sup>2)))) (zip data ws)) /
       (sum_list ws * (b * sqrt (2 * pi)))"

definition gaussian :: kernel_density where
  "gaussian h data weights =
     (case validate h data weights of
        Some e \<Rightarrow> Inl e
      | None \<Rightarrow>
          (case h of
             Finite b \<Rightarrow>
               Inr (\<lambda>x. Finite (gaussian_density b data
                      (case weights of None \<Rightarrow> map (\<lambda>d. 1) data | Some sw \<Rightarrow> sw) x))
           | _ \<Rightarrow> Inl (ValueError ''bandwidth must be a positive finite number'')))"

definition flat :: kernel_density where
  "flat h data weights =
     (case validate h data weights of Some e \<Rightarrow> Inl e | None \<Rightarrow> Inr (\<lambda>x. Finite 1))"

definition spiky :: kernel_density where
  "spiky h data weights =
     (case validate h data weights of
        Some e \<Rightarrow> Inl e
      | None \<Rightarrow> Inr (\<lambda>x. if x = 0 then NaN else h))"

section \<open>The surrogate model\<close>

text \<open>
  A data frame: its column labels, in order, and its rows of values. The values
  themselves play no part below and stay a type variable.
\<close>

record 'v table =
  columns :: "string list"
  cells :: "'v list list"

text \<open>
  \<open>df.drop(label, axis=1)\<close>: the frame without the columns of that label, KeyError when
  no column has it.
\<close>

definition drop_column :: "'v table \<Rightarrow> string \<Rightarrow> error + 'v table" where
  "drop_column df label =
     (if label \<notin> set (columns df) then Inl (KeyError label)
      else Inr \<lparr>columns = filter (\<lambda>c. c \<noteq> label) (columns df),
                cells = map (\<lambda>r. map snd (filter (\<lambda>(c, v). c \<noteq> label) (zip (columns df) r)))
                          (cells df)\<rparr>)"

text \<open>\<open>df[label]\<close>: the values of that column, KeyError when no column has the label.\<close>

definition get_column :: "'v table \<Rightarrow> string \<Rightarrow> error + 'v list" where
  "get_column df label =
     (case list_index (columns df) label of
        Inl e \<Rightarrow> Inl (KeyError label)
      | Inr k \<Rightarrow> Inr (map (\<lambda>r. r ! k) (cells df)))"

text \<open>
  The two tree ensembles, each with its \<open>random_state\<close> and the forest it has been fitted
  to, none before a fit. The forest's type \<open>'m\<close> belongs to the library.
\<close>

datatype 'm estimator =
  RandomForestClassifier nat "'m option"
| RandomForestRegressor nat "'m option"

text \<open>
  The two tags come from \<open>ModelDriftConstants\<close>, which is not among the sources: they are a
  parameter of the model.
\<close>

record ModelDriftConstants =
  CLASSIFICATION_TYPE :: string
  REGRRSSION_TYPE :: string

text \<open>The attributes of a \<open>SurrogateModel\<close> instance.\<close>

record 'm surrogate_model =
  feature_names :: "string list option"
  target :: "string option"
  prediction_type :: string
  clf :: "'m estimator"

text \<open>
  The collaborators of \<open>fit\<close> are parameters of the model:
  \<open>preprocess df target\<close> stands for \<open>Preprocessor(df, target).get_processed_train_test()\<close>,
  and \<open>clf_fit est X Y\<close> for \<open>est.fit(X, Y)\<close>, which returns the fitted estimator or raises.
\<close>

type_synonym 'v preprocessor = "'v table \<Rightarrow> string \<Rightarrow> error + ('v table \<times> 'v table)"

type_synonym ('v, 'm) estimator_fit =
  "'m estimator \<Rightarrow> 'v table \<Rightarrow> 'v list \<Rightarrow> error + 'm estimator"

definition check :: "ModelDriftConstants \<Rightarrow> string \<Rightarrow> error + unit" where
  "check tags ptype =
     (if ptype \<notin> set [CLASSIFICATION_TYPE tags, REGRRSSION_TYPE tags] then
        Inl (ValueError ''Prediction type must either be CLASSIFICATION or REGRESSION.'')
      else Inr ())"

text \<open>
  The constructor \<open>__init__\<close>. The list of the estimators constructed so far is passed
  through, so that the result shows whether one has been constructed.
\<close>

definition SurrogateModel ::
  "ModelDriftConstants \<Rightarrow> string \<Rightarrow> 'm estimator list \<Rightarrow>
     (error + 'm surrogate_model) \<times> 'm estimator list" where
  "SurrogateModel tags ptype allocated =
     (case check tags ptype of
        Inl e \<Rightarrow> (Inl e, allocated)
      | Inr u \<Rightarrow>
          let est = (if ptype = CLASSIFICATION_TYPE tags
                     then RandomForestClassifier 1407 None
                     else RandomForestRegressor 1407 None)
          in (Inr \<lparr>feature_names = None, target = None,
                    prediction_type = ptype, clf = est\<rparr>,
              allocated @ [est]))"

definition get_features :: "'m surrogate_model \<Rightarrow> string list option" where
  "get_features self = feature_names self"

text \<open>
  \<open>fit\<close> changes the instance in place and returns nothing; the model returns the changed
  instance, or the error that leaves it as it was.
\<close>

definition fit ::
  "'v preprocessor \<Rightarrow> ('v, 'm) estimator_fit \<Rightarrow> 'm surrogate_model \<Rightarrow> 'v table \<Rightarrow> string \<Rightarrow>
     error + 'm surrogate_model" where
  "fit preprocess clf_fit self df target_name =
     (case preprocess df target_name of
        Inl e \<Rightarrow> Inl e
      | Inr (train, test) \<Rightarrow>
      case drop_column train target_name of
        Inl e \<Rightarrow> Inl e
      | Inr train_X \<Rightarrow>
      case get_column train target_name of
        Inl e \<Rightarrow> Inl e
      | Inr train_Y \<Rightarrow>
      case clf_fit (clf self) train_X train_Y of
        Inl e \<Rightarrow> Inl e
      | Inr fitted \<Rightarrow> Inr (self\<lparr>clf := fitted, feature_names := Some (columns train_X)\<rparr>))"


text \<open>
  Modelled from the spec: the \<open>Preprocessor\<close> of \<open>dku_data_drift/preprocessing.py\<close>, which is
  not among the sources. The specification describes it as splitting a labelled table
  into a train and a test partition, with an encoding applied consistently to both; it
  does not say which columns the partitions have. Here the rows are split at a position,
  every value goes through the same encoding, and both partitions keep the columns of the
  table: one preprocessor among those the description allows, for evaluating \<open>fit\<close> on
  concrete tables. The properties of \<open>fit\<close> below are proved for every preprocessor.
\<close>

definition Preprocessor :: "('v \<Rightarrow> 'v) \<Rightarrow> nat \<Rightarrow> 'v preprocessor" where
  "Preprocessor encode k df target_name =
     Inr (\<lparr>columns = columns df, cells = map (map encode) (take k (cells df))\<rparr>,
          \<lparr>columns = columns df, cells = map (map encode) (drop k (cells df))\<rparr>)"

text \<open>
  Modelled from the spec: the values of \<open>ModelDriftConstants\<close>, named CLASSIFICATION and
  REGRESSION by the specification and by the message of \<open>check\<close>.
\<close>

definition constants :: ModelDriftConstants where
  "constants = \<lparr>CLASSIFICATION_TYPE = ''CLASSIFICATION'', REGRRSSION_TYPE = ''REGRESSION''\<rparr>"

subsection \<open>Concrete collaborators and tables\<close>

text \<open>An estimator fit that keeps the training data as its forest.\<close>

definition memorise :: "('v, 'v table \<times> 'v list) estimator_fit" where
  "memorise est X Y =
     (case est of
        RandomForestClassifier seed m \<Rightarrow> Inr (RandomForestClassifier seed (Some (X, Y)))
      | RandomForestRegressor seed m \<Rightarrow> Inr (RandomForestRegressor seed (Some (X, Y))))"

definition df1 :: "int table" where
  "df1 = \<lparr>columns = [''age'', ''label'', ''income''],
          cells = [[31, 0, 12], [45, 1, 30], [27, 0, 9]]\<rparr>"


definition df2 :: "int table" where
  "df2 = \<lparr>columns = [''y'', ''height''], cells = [[1, 170], [0, 182]]\<rparr>"


definition fitted1 :: "(int table \<times> int list) surrogate_model" where
  "fitted1 = \<lparr>feature_names = Some [''age'', ''income''], target = None,
     prediction_type = ''CLASSIFICATION'',
     clf = RandomForestClassifier 1407
       (Some (\<lparr>columns = [''age'', ''income''], cells = [[31, 12], [45, 30]]\<rparr>, [0, 1]))\<rparr>"

definition fitted2 :: "(int table \<times> int list) surrogate_model" where
  "fitted2 = \<lparr>feature_names = Some [''height''], target = None,
     prediction_type = ''CLASSIFICATION'',
     clf = RandomForestClassifier 1407
       (Some (\<lparr>columns = [''height''], cells = [[170]]\<rparr>, [1]))\<rparr>"

section \<open>Properties of the discrimination score\<close>

subsection \<open>Auxiliary facts\<close>

lemma set_unique: "set (unique ar) = set ar"
  by (simp add: unique_def)

lemma distinct_unique: "distinct (unique ar)"
  by (simp add: unique_def)

lemma sorted_unique: "sorted (unique ar)"
  by (simp add: unique_def)

lemma length_unique: "length (unique ar) = card (set ar)"
  by (metis distinct_card distinct_unique set_unique)

lemma list_index_mem:
  "c \<in> set xs \<Longrightarrow> \<exists>k. list_index xs c = Inr k \<and> k < length xs \<and> xs ! k = c"
  by (induction xs) auto

lemma series_map_Inr:
  "(\<And>x. x \<in> set xs \<Longrightarrow> f x = Inr (g x)) \<Longrightarrow> series_map f xs = Inr (map g xs)"
  by (induction xs) auto

lemma unique_two:
  assumes "card (set ar) = 2"
  shows "unique ar = [Min (set ar), Max (set ar)] \<and> Min (set ar) < Max (set ar)"
proof -
  have len: "length (unique ar) = 2" using assms by (simp add: length_unique)
  then obtain a b where ab: "unique ar = [a, b]"
    by (metis (no_types, opaque_lifting) One_nat_def Suc_1 length_0_conv length_Suc_conv)
  have "distinct [a, b]" "sorted [a, b]" using distinct_unique[of ar] sorted_unique[of ar] ab by simp_all
  then have lt: "a < b" by auto
  have s: "set ar = {a, b}" using set_unique[of ar] ab by simp
  have "Min (set ar) = a" "Max (set ar) = b" using lt by (auto simp: s min_def max_def)
  with ab lt show ?thesis by simp
qed

lemma column_1: "2 \<le> ncols m \<Longrightarrow> column m 1 = Inr (map (\<lambda>r. r ! 1) (rows m))"
  by (simp add: column_def Let_def)

lemma sum_generator_Inr:
  "sum_generator (map Inr vs) acc = Inr (acc + sum_list vs)"
  by (induction vs arbitrary: acc) (simp_all add: add.assoc)

lemma sum_generator_Inl:
  "sum_generator ts acc = Inl e \<Longrightarrow> Inl e \<in> set ts"
  by (induction ts arbitrary: acc) (auto split: sum.splits)

lemma length_boolean_index:
  assumes "boolean_index msk xs = Inr a"
  shows "length a = length (filter (\<lambda>b. b) msk)"
proof -
  have "length msk = length xs \<Longrightarrow>
      length (filter fst (zip msk xs)) = length (filter (\<lambda>b. b) msk)"
    by (induction msk xs rule: list_induct2) simp_all
  with assms show ?thesis by (auto simp: boolean_index_def split: if_splits)
qed

lemma length_column: "column m k = Inr c \<Longrightarrow> length c = length (rows m)"
  by (auto simp: column_def Let_def split: if_splits)

lemma roc_auc_score_Inr:
  "length y_score = length y_true \<Longrightarrow>
   (case sample_weight of None \<Rightarrow> True | Some sw \<Rightarrow> length sw = length y_true) \<Longrightarrow>
   roc_auc_score auc y_true y_score sample_weight = Inr (auc y_true y_score sample_weight)"
  by (auto simp: roc_auc_score_def split: option.splits)

lemma A_no_ValueError: "A as_index f y P w i j \<noteq> Inl (ValueError msg)"
proof
  assume a: "A as_index f y P w i j = Inl (ValueError msg)"
  let ?msk = "in1d y [i, j]"
  from a obtain sel where sel: "boolean_index ?msk y = Inr sel"
    by (auto simp: A_def Let_def boolean_index_def split: if_splits)
  from a sel obtain rs where rs: "boolean_index ?msk (rows P) = Inr rs"
    by (cases "boolean_index ?msk (rows P)")
      (auto simp: A_def Let_def boolean_index_def split: if_splits)
  from a sel rs obtain k where k: "as_index i = Some k"
    by (cases "as_index i") (auto simp: A_def Let_def)
  from a sel rs k obtain col where col: "column (P\<lparr>rows := rs\<rparr>) k = Inr col"
    by (cases "column (P\<lparr>rows := rs\<rparr>) k")
      (auto simp: A_def Let_def column_def split: if_splits)
  have l1: "length col = length (map (\<lambda>c. of_bool (c = i) :: nat) sel)"
    using length_column[OF col] length_boolean_index[OF sel] length_boolean_index[OF rs]
    by simp
  show False
  proof (cases w)
    case None
    with a sel rs k col l1 show False
      by (simp add: A_def Let_def roc_auc_score_Inr)
  next
    case (Some sw)
    with a sel rs k col obtain swi where swi: "boolean_index ?msk sw = Inr swi"
      by (cases "boolean_index ?msk sw")
        (auto simp: A_def Let_def boolean_index_def split: if_splits)
    have "length swi = length (map (\<lambda>c. of_bool (c = i) :: nat) sel)"
      using length_boolean_index[OF swi] length_boolean_index[OF sel] by simp
    with a sel rs k col l1 Some swi show False
      by (simp add: A_def Let_def roc_auc_score_Inr)
  qed
qed

lemma binary_remap:
  assumes "card (set y) = 2"
  shows "series_map (list_index (unique y)) y = Inr (remap_sorted y)"
proof -
  define a where "a = Min (set y)"
  define b where "b = Max (set y)"
  from unique_two[OF assms] have u: "unique y = [a, b]" and lt: "a < b"
    by (simp_all add: a_def b_def)
  have s: "set y = {a, b}" using set_unique[of y] unfolding u by simp
  have "list_index (unique y) c = Inr (if c = a then 0 else 1)" if "c \<in> set y" for c
  proof -
    from that s have "c = a \<or> c = b" by blast
    then show ?thesis using lt by (auto simp: u)
  qed
  then have "series_map (list_index (unique y)) y = Inr (map (\<lambda>c. if c = a then 0 else 1) y)"
    by (rule series_map_Inr)
  then show ?thesis by (simp add: remap_sorted_def a_def)
qed

lemma length_remap_sorted: "length (remap_sorted y) = length y"
  by (simp add: remap_sorted_def)

lemma binary_unfold:
  assumes "card (set y) = 2" and "2 \<le> ncols P" and "aligned y P w"
  shows "mroc_auc_score as_index f y P w =
     Inr (f (remap_sorted y) (map (\<lambda>r. r ! 1) (rows P)) w)"
proof -
  have "roc_auc_score f (remap_sorted y) (map (\<lambda>r. r ! 1) (rows P)) w =
      Inr (f (remap_sorted y) (map (\<lambda>r. r ! 1) (rows P)) w)"
    using assms(3)
    by (intro roc_auc_score_Inr)
      (auto simp: aligned_def length_remap_sorted split: option.splits)
  with assms(1,2) show ?thesis
    by (simp add: mroc_auc_score_def Let_def length_unique binary_remap column_1)
qed

lemma multi_no_ValueError:
  "sum_generator [A as_index f y P w i j. i \<leftarrow> cs, j \<leftarrow> cs, i \<noteq> j] 0 \<noteq> Inl (ValueError msg)"
proof
  assume "sum_generator [A as_index f y P w i j. i \<leftarrow> cs, j \<leftarrow> cs, i \<noteq> j] 0 = Inl (ValueError msg)"
  then have "Inl (ValueError msg) \<in> set [A as_index f y P w i j. i \<leftarrow> cs, j \<leftarrow> cs, i \<noteq> j]"
    by (rule sum_generator_Inl)
  then show False by (auto split: if_splits simp: A_no_ValueError[THEN not_sym])
qed

lemma too_many_classes:
  "ncols P < card (set y) \<Longrightarrow> mroc_auc_score idx g y P w =
     Inl (ValueError ''Your test set contained more classes than the test set. Check your dataset or try a different split.'')"
  by (simp add: mroc_auc_score_def Let_def length_unique)

lemma too_few_classes:
  "\<not> ncols P < card (set y) \<Longrightarrow> card (set y) < 2 \<Longrightarrow> mroc_auc_score idx g y P w =
     Inl (ValueError ''Ended up with less than two-classes in the validation set.'')"
  by (simp add: mroc_auc_score_def Let_def length_unique)

lemma multi_unfold:
  assumes "card (set y) \<le> ncols P" and "2 < card (set y)"
  shows "mroc_auc_score as_index f y P w =
     (case sum_generator [A as_index f y P w i j. i \<leftarrow> unique y, j \<leftarrow> unique y, i \<noteq> j] 0 of
        Inl e \<Rightarrow> Inl e
      | Inr s \<Rightarrow> Inr (1 / real (card (set y) * (card (set y) - 1)) * s))"
proof -
  have "\<not> length (unique y) > ncols P" "\<not> length (unique y) < 2" "length (unique y) \<noteq> 2"
    using assms by (simp_all add: length_unique)
  then show ?thesis
    unfolding mroc_auc_score_def Let_def by (simp only: if_False length_unique)
qed

lemma card_7337: "card (set [7, 3, 3, 7::int]) = 2"
  by code_simp

subsection \<open>Validation\<close>

text \<open>
  Claim C4. \<open>mroc_auc_score\<close> raises ValueError when the labels hold more distinct values
  than the prediction matrix has columns, and when they hold fewer than two distinct
  values; the error is then the result whatever the binary score is, so nothing has been
  scored when it is raised. For labels and weights aligned with the rows of the matrix
  these are the only cases: when both checks pass, the result is no ValueError.
\<close>

theorem validation_raises_ValueError:
  "(ncols P < card (set y) \<or> card (set y) < 2 \<longrightarrow>
      (\<exists>msg. \<forall>g idx. mroc_auc_score idx g y P w = Inl (ValueError msg))) \<and>
   (aligned y P w \<and> \<not> (ncols P < card (set y) \<or> card (set y) < 2) \<longrightarrow>
      (\<forall>msg. mroc_auc_score as_index f y P w \<noteq> Inl (ValueError msg)))"
proof (intro conjI impI allI)
  assume bad: "ncols P < card (set y) \<or> card (set y) < 2"
  show "\<exists>msg. \<forall>g idx. mroc_auc_score idx g y P w = Inl (ValueError msg)"
  proof (cases "ncols P < card (set y)")
    case True
    then show ?thesis using too_many_classes[of P y _ _ w] by blast
  next
    case False
    with bad show ?thesis using too_few_classes[of P y _ _ w] by blast
  qed
next
  fix msg
  assume "aligned y P w \<and> \<not> (ncols P < card (set y) \<or> card (set y) < 2)"
  then have al: "aligned y P w" and ok: "\<not> (ncols P < card (set y) \<or> card (set y) < 2)"
    by simp_all
  show "mroc_auc_score as_index f y P w \<noteq> Inl (ValueError msg)"
  proof (cases "card (set y) = 2")
    case True
    with ok al show ?thesis by (simp add: binary_unfold)
  next
    case False
    with ok have "card (set y) \<le> ncols P" "2 < card (set y)" by simp_all
    from multi_unfold[OF this, of as_index f w] show ?thesis
      using multi_no_ValueError[of as_index f y P w "unique y" msg]
      by (auto split: sum.splits)
  qed
qed

theorem validation_raises_ValueError_witness:
  "(\<exists>msg. \<forall>g idx. mroc_auc_score idx g [0, 1, 2::int] P2 None = Inl (ValueError msg)) \<and>
   (\<exists>msg. \<forall>g idx. mroc_auc_score idx g [4, 4, 4, 4::int] P2 None = Inl (ValueError msg)) \<and>
   (\<forall>msg. mroc_auc_score Some roc_auc [7, 3, 3, 7] P2 None \<noteq> Inl (ValueError msg))"
  using validation_raises_ValueError[of P2 "[0, 1, 2]" None Some roc_auc]
    validation_raises_ValueError[of P2 "[4, 4, 4, 4]" None Some roc_auc]
    validation_raises_ValueError[of P2 "[7, 3, 3, 7]" None Some roc_auc] card_7337
  by (simp add: P2_def aligned_def)

subsection \<open>The binary case\<close>

text \<open>
  Claim C2. For every input with exactly two distinct labels (of any ordered type) that
  passes the validation, so that the prediction matrix has a column of index 1, and
  whose labels and weights are aligned with the rows of the matrix, the score is the
  binary score of that column against the labels remapped to 0 and 1 in ascending order,
  with the sample weights passed as they are.
\<close>

theorem binary_case_score:
  assumes "card (set y) = 2" and "2 \<le> ncols P" and "aligned y P w"
  shows "mroc_auc_score as_index f y P w =
     Inr (f (remap_sorted y) (map (\<lambda>r. r ! 1) (rows P)) w)"
  using assms by (rule binary_unfold)

theorem binary_case_score_witness:
  "mroc_auc_score Some roc_auc [7, 3, 3, 7] P2 (Some [1, 2, 1, 1]) =
     Inr (roc_auc [1, 0, 0, 1] [0.2, 0.7, 0.4, 0.9] (Some [1, 2, 1, 1])) \<and>
   mroc_auc_score (\<lambda>c. None) roc_auc [''spam'', ''ham'', ''ham'', ''spam''] P2 None = Inr (1 / 2)"
proof -
  have c: "card (set [''spam'', ''ham'', ''ham'', ''spam'']) = 2" by code_simp
  have r: "remap_sorted [''spam'', ''ham'', ''ham'', ''spam''] = [1, 0, 0, 1]"
    by (simp add: remap_sorted_def)
  have r7: "remap_sorted [7, 3, 3, 7::int] = [1, 0, 0, 1]"
    by (simp add: remap_sorted_def)
  from binary_case_score[of "[7, 3, 3, 7]" P2 "Some [1, 2, 1, 1]" Some roc_auc]
    binary_case_score[of "[''spam'', ''ham'', ''ham'', ''spam'']" P2 None "\<lambda>c. None" roc_auc]
    c card_7337
  show ?thesis
    by (simp add: r r7 P2_def aligned_def) (simp add: roc_auc_def)
qed

subsection \<open>The multi-class case\<close>

lemma boolean_index_in1d:
  "length xs = length ys \<Longrightarrow>
   boolean_index (in1d ys [i, j]) xs = Inr (restrict_rows ys xs i j)"
proof -
  have "map snd (filter fst (zip (map (\<lambda>c. c = i \<or> c = j) ys) xs)) =
        map snd (filter (\<lambda>(c, x). c = i \<or> c = j) (zip ys xs))" for xs :: "'a list"
  proof (induction ys arbitrary: xs)
    case Nil
    show ?case by simp
  next
    case (Cons y ys)
    then show ?case by (cases xs) auto
  qed
  moreover assume "length xs = length ys"
  ultimately show ?thesis
    by (simp add: boolean_index_def in1d_def restrict_rows_def)
qed

lemma column_nonneg:
  "0 \<le> i \<Longrightarrow> i < int (ncols m) \<Longrightarrow> column m i = Inr (map (\<lambda>r. r ! nat i) (rows m))"
  by (simp add: column_def Let_def)

lemma length_restrict_rows:
  "length xs = length ys \<Longrightarrow>
   length (restrict_rows ys xs i j) = length (filter (\<lambda>c. c = i \<or> c = j) ys)"
  unfolding restrict_rows_def
  by (induction xs ys rule: list_induct2) simp_all

lemma A_pairwise:
  assumes al: "aligned y P w" and i: "0 \<le> i" "i < int (ncols P)"
  shows "A Some f y P w i j = Inr (pairwise_score f y P w i j)"
proof -
  have len: "length (rows P) = length y" using al by (simp add: aligned_def)
  have of_bool: "(\<lambda>c. of_bool (c = i)) = (\<lambda>c::int. if c = i then 1 else (0::nat))"
    by (simp add: fun_eq_iff)
  have l1: "length (restrict_rows y (rows P) i j) = length (restrict_rows y y i j)"
    using len by (simp add: length_restrict_rows)
  show ?thesis
  proof (cases w)
    case None
    then show ?thesis
      using i l1 by (simp add: A_def Let_def boolean_index_in1d len column_nonneg
          pairwise_score_def of_bool roc_auc_score_Inr)
  next
    case (Some sw)
    with al have lsw: "length sw = length y" by (simp add: aligned_def)
    then have "length (restrict_rows y sw i j) = length (restrict_rows y y i j)"
      by (simp add: length_restrict_rows)
    with Some lsw show ?thesis
      using i l1 by (simp add: A_def Let_def boolean_index_in1d len column_nonneg
          pairwise_score_def of_bool roc_auc_score_Inr)
  qed
qed

lemma card_column_labels:
  assumes "column_labels y P"
  shows "card (set y) \<le> ncols P"
proof -
  have "set y \<subseteq> {0..<int (ncols P)}"
    using assms by (auto simp: column_labels_def list_all_iff)
  then have "card (set y) \<le> card {0..<int (ncols P)}"
    by (intro card_mono) simp_all
  then show ?thesis by simp
qed

lemma pairs_Inr:
  assumes "\<And>i j. i \<in> set xs \<Longrightarrow> g i j = Inr (h i j)"
  shows "[g i j. i \<leftarrow> xs, j \<leftarrow> ys, i \<noteq> j] = map Inr [h i j. i \<leftarrow> xs, j \<leftarrow> ys, i \<noteq> j]"
proof -
  have inner: "concat (map (\<lambda>j. if i \<noteq> j then [g i j] else []) ys) =
      map Inr (concat (map (\<lambda>j. if i \<noteq> j then [h i j] else []) ys))" if "i \<in> set xs" for i
    using assms[OF that] by (induction ys) simp_all
  have "map (\<lambda>i. concat (map (\<lambda>j. if i \<noteq> j then [g i j] else []) ys)) xs =
        map (\<lambda>i. map Inr (concat (map (\<lambda>j. if i \<noteq> j then [h i j] else []) ys))) xs"
    by (rule map_cong[OF refl]) (rule inner)
  then have "[g i j. i \<leftarrow> xs, j \<leftarrow> ys, i \<noteq> j] =
      concat (map (\<lambda>i. map Inr (concat (map (\<lambda>j. if i \<noteq> j then [h i j] else []) ys))) xs)"
    by (rule arg_cong)
  also have "\<dots> = map Inr [h i j. i \<leftarrow> xs, j \<leftarrow> ys, i \<noteq> j]"
    by (simp add: map_concat comp_def)
  finally show ?thesis .
qed

lemma sum_list_concat_map:
  "sum_list (concat (map F xs)) = sum_list (map (\<lambda>x. sum_list (F x :: real list)) xs)"
  by (induction xs) simp_all

lemma sum_list_pairs:
  assumes "distinct xs"
  shows "sum_list [h i j. i \<leftarrow> xs, j \<leftarrow> xs, i \<noteq> j] =
         (\<Sum>i \<in> set xs. \<Sum>j \<in> set xs - {i}. (h i j :: real))"
proof -
  have inner: "sum_list (concat (map (\<lambda>j. if i \<noteq> j then [h i j] else []) ys)) =
      (\<Sum>j \<in> set ys - {i}. h i j)" if "distinct ys" for i and ys :: "'a list"
    using that
  proof (induction ys)
    case Nil
    show ?case by simp
  next
    case (Cons a ys)
    then have IH: "sum_list (concat (map (\<lambda>j. if i \<noteq> j then [h i j] else []) ys)) =
      (\<Sum>j \<in> set ys - {i}. h i j)" and a: "a \<notin> set ys" by simp_all
    show ?case
    proof (cases "i = a")
      case True
      with a have "set (a # ys) - {i} = set ys - {i}" by auto
      with True IH show ?thesis by simp
    next
      case False
      then have "set (a # ys) - {i} = insert a (set ys - {i})" by auto
      moreover have "a \<notin> set ys - {i}" using a by simp
      ultimately show ?thesis using False IH by simp
    qed
  qed
  have "sum_list [h i j. i \<leftarrow> xs, j \<leftarrow> xs, i \<noteq> j] =
        sum_list (map (\<lambda>i. sum_list (concat (map (\<lambda>j. if i \<noteq> j then [h i j] else []) xs))) xs)"
    by (rule sum_list_concat_map)
  also have "\<dots> = sum_list (map (\<lambda>i. \<Sum>j \<in> set xs - {i}. h i j) xs)"
    using assms by (simp add: inner)
  also have "\<dots> = (\<Sum>i \<in> set xs. \<Sum>j \<in> set xs - {i}. h i j)"
    using assms by (simp add: sum_list_distinct_conv_sum_set)
  finally show ?thesis .
qed

lemma multi_score:
  assumes al: "aligned y P w" and cl: "column_labels y P" and k: "2 < card (set y)"
  shows "mroc_auc_score Some f y P w = Inr (hand_till f y P w)"
proof -
  have Aeq: "A Some f y P w i j = Inr (pairwise_score f y P w i j)" if "i \<in> set (unique y)" for i j
  proof -
    from that cl have "0 \<le> i" "i < int (ncols P)"
      by (auto simp: column_labels_def list_all_iff set_unique)
    with al show ?thesis by (rule A_pairwise)
  qed
  have eq: "[A Some f y P w i j. i \<leftarrow> unique y, j \<leftarrow> unique y, i \<noteq> j] =
      map Inr [pairwise_score f y P w i j. i \<leftarrow> unique y, j \<leftarrow> unique y, i \<noteq> j]"
    by (rule pairs_Inr) (rule Aeq)
  have "sum_generator [A Some f y P w i j. i \<leftarrow> unique y, j \<leftarrow> unique y, i \<noteq> j] 0 =
        Inr (0 + sum_list [pairwise_score f y P w i j. i \<leftarrow> unique y, j \<leftarrow> unique y, i \<noteq> j])"
    unfolding eq by (rule sum_generator_Inr)
  also have "0 + sum_list [pairwise_score f y P w i j. i \<leftarrow> unique y, j \<leftarrow> unique y, i \<noteq> j] =
        sum_list [pairwise_score f y P w i j. i \<leftarrow> unique y, j \<leftarrow> unique y, i \<noteq> j]"
    by simp
  also have "sum_list [pairwise_score f y P w i j. i \<leftarrow> unique y, j \<leftarrow> unique y, i \<noteq> j] =
        (\<Sum>i \<in> set y. \<Sum>j \<in> set y - {i}. pairwise_score f y P w i j)"
    using sum_list_pairs[OF distinct_unique, of "pairwise_score f y P w" y]
    by (simp only: set_unique)
  finally have "sum_generator [A Some f y P w i j. i \<leftarrow> unique y, j \<leftarrow> unique y, i \<noteq> j] 0 =
        Inr (\<Sum>i \<in> set y. \<Sum>j \<in> set y - {i}. pairwise_score f y P w i j)" .
  with multi_unfold[OF card_column_labels[OF cl] k, of Some f w] show ?thesis
    by (simp add: hand_till_def Let_def)
qed

lemma restrict_rows_map: "restrict_rows ys (map g xs) i j = map g (restrict_rows ys xs i j)"
proof -
  have "map snd (filter (\<lambda>(c, x). c = i \<or> c = j) (zip ys (map g xs))) =
        map g (map snd (filter (\<lambda>(c, x). c = i \<or> c = j) (zip ys xs)))"
  proof (induction ys arbitrary: xs)
    case Nil
    show ?case by simp
  next
    case (Cons y ys)
    then show ?case by (cases xs) auto
  qed
  then show ?thesis by (simp add: restrict_rows_def)
qed

lemma restrict_rows_relabel:
  assumes "inj_on \<sigma> S" and "set ys \<subseteq> S" and "i \<in> S" and "j \<in> S"
  shows "restrict_rows (map \<sigma> ys) xs (\<sigma> i) (\<sigma> j) = restrict_rows ys xs i j"
proof -
  have "set ys \<subseteq> S \<Longrightarrow>
        map snd (filter (\<lambda>(c, x). c = \<sigma> i \<or> c = \<sigma> j) (zip (map \<sigma> ys) xs)) =
        map snd (filter (\<lambda>(c, x). c = i \<or> c = j) (zip ys xs))"
  proof (induction ys arbitrary: xs)
    case Nil
    show ?case by simp
  next
    case (Cons y ys)
    from Cons.prems have y: "y \<in> S" and ys: "set ys \<subseteq> S" by simp_all
    have eq: "(\<sigma> y = \<sigma> i) = (y = i)" "(\<sigma> y = \<sigma> j) = (y = j)"
      using assms(1,3,4) y by (auto dest: inj_onD)
    show ?case
    proof (cases xs)
      case Nil
      then show ?thesis by simp
    next
      case (Cons x xs')
      with Cons.IH[OF ys, of xs'] eq show ?thesis by simp
    qed
  qed
  with assms(2) show ?thesis by (simp add: restrict_rows_def)
qed

lemma set_restrict_rows: "set (restrict_rows ys xs i j) \<subseteq> set xs"
  by (auto simp: restrict_rows_def dest: set_zip_rightD)

lemma pairwise_relabel:
  assumes inj: "inj_on \<sigma> {0..<int (ncols P)}" and cl: "column_labels y P"
    and i: "i \<in> set y" and j: "j \<in> set y"
  shows "pairwise_score f (map \<sigma> y) P w (\<sigma> i) (\<sigma> j) =
         pairwise_score f y (permute_columns \<sigma> P) w i j"
proof -
  let ?S = "{0..<int (ncols P)}"
  have sub: "set y \<subseteq> ?S" using cl by (auto simp: column_labels_def list_all_iff)
  with i j have iS: "i \<in> ?S" and jS: "j \<in> ?S" by auto
  note rr = restrict_rows_relabel[OF inj sub iS jS]
  have labels: "map (\<lambda>c. if c = \<sigma> i then 1 else 0) (restrict_rows (map \<sigma> y) (map \<sigma> y) (\<sigma> i) (\<sigma> j)) =
        map (\<lambda>c. if c = i then 1 else (0::nat)) (restrict_rows y y i j)"
  proof -
    have "(\<sigma> c = \<sigma> i) = (c = i)" if "c \<in> set (restrict_rows y y i j)" for c
    proof -
      from that set_restrict_rows[of y y i j] sub have "c \<in> ?S" by auto
      with inj iS show ?thesis by (auto dest: inj_onD)
    qed
    then show ?thesis by (simp add: rr restrict_rows_map comp_def)
  qed
  have scores: "map (\<lambda>r. r ! nat (\<sigma> i)) (restrict_rows y (rows P) i j) =
        map (\<lambda>r. r ! nat i) (restrict_rows y (rows (permute_columns \<sigma> P)) i j)"
  proof -
    have "nat i < ncols P" "int (nat i) = i" using iS by auto
    then show ?thesis
      by (simp add: permute_columns_def restrict_rows_map comp_def)
  qed
  show ?thesis
    using labels scores unfolding pairwise_score_def rr by simp
qed

lemma card_001122: "card (set [0, 0, 1, 1, 2, 2::int]) = 3"
  by code_simp

lemma card_001155: "card (set [0, 0, 1, 1, 5, 5::int]) = 3"
  by code_simp

lemma unique_001122: "unique [0, 0, 1, 1, 2, 2::int] = [0, 1, 2]"
  by (simp add: unique_def)

lemma unique_110022: "unique [1, 1, 0, 0, 2, 2::int] = [0, 1, 2]"
  by (simp add: unique_def)

lemma unique_001155: "unique [0, 0, 1, 1, 5, 5::int] = [0, 1, 5]"
  by (simp add: unique_def)

lemma A_P3:
  "A Some roc_auc [0, 0, 1, 1, 2, 2] P3 None 0 1 = Inr (3 / 4)"
  "A Some roc_auc [0, 0, 1, 1, 2, 2] P3 None 0 2 = Inr (7 / 8)"
  "A Some roc_auc [0, 0, 1, 1, 2, 2] P3 None 1 0 = Inr (3 / 4)"
  "A Some roc_auc [0, 0, 1, 1, 2, 2] P3 None 1 2 = Inr 1"
  "A Some roc_auc [0, 0, 1, 1, 2, 2] P3 None 2 0 = Inr 1"
  "A Some roc_auc [0, 0, 1, 1, 2, 2] P3 None 2 1 = Inr 1"
  by (simp_all add: A_def in1d_def boolean_index_def column_def P3_def roc_auc_score_def
      roc_auc_def)

lemma A_P3_swapped:
  "A Some roc_auc [1, 1, 0, 0, 2, 2] P3 None 0 1 = Inr (1 / 4)"
  "A Some roc_auc [1, 1, 0, 0, 2, 2] P3 None 0 2 = Inr (3 / 4)"
  "A Some roc_auc [1, 1, 0, 0, 2, 2] P3 None 1 0 = Inr (1 / 4)"
  "A Some roc_auc [1, 1, 0, 0, 2, 2] P3 None 1 2 = Inr (5 / 8)"
  "A Some roc_auc [1, 1, 0, 0, 2, 2] P3 None 2 0 = Inr 1"
  "A Some roc_auc [1, 1, 0, 0, 2, 2] P3 None 2 1 = Inr 1"
  by (simp_all add: A_def in1d_def boolean_index_def column_def P3_def roc_auc_score_def
      roc_auc_def)

lemma ncols_P3: "ncols P3 = 3"
  by (simp add: P3_def)

lemma score_P3: "mroc_auc_score Some roc_auc [0, 0, 1, 1, 2, 2] P3 None = Inr (43 / 48)"
  by (simp add: mroc_auc_score_def unique_001122 A_P3 ncols_P3)

lemma score_P3_swapped: "mroc_auc_score Some roc_auc [1, 1, 0, 0, 2, 2] P3 None = Inr (31 / 48)"
  by (simp add: mroc_auc_score_def unique_110022 A_P3_swapped ncols_P3)

lemma A_P3_5:
  "A Some roc_auc [0, 0, 1, 1, 5, 5] P3 None 5 0 = Inl IndexError"
  "\<exists>v. A Some roc_auc [0, 0, 1, 1, 5, 5] P3 None 0 1 = Inr v"
  "\<exists>v. A Some roc_auc [0, 0, 1, 1, 5, 5] P3 None 0 5 = Inr v"
  "\<exists>v. A Some roc_auc [0, 0, 1, 1, 5, 5] P3 None 1 0 = Inr v"
  "\<exists>v. A Some roc_auc [0, 0, 1, 1, 5, 5] P3 None 1 5 = Inr v"
  by (simp_all add: A_def in1d_def boolean_index_def column_def P3_def roc_auc_score_def)

lemma score_P3_5: "mroc_auc_score Some roc_auc [0, 0, 1, 1, 5, 5] P3 None = Inl IndexError"
  using A_P3_5 by (auto simp: mroc_auc_score_def unique_001155 ncols_P3)

lemma bij_swap01: "bij_betw swap01 {0..<int (ncols P3)} {0..<int (ncols P3)}"
  unfolding bij_betw_def
proof
  show "inj_on swap01 {0..<int (ncols P3)}"
    by (auto simp: inj_on_def swap01_def split: if_splits)
  show "swap01 ` {0..<int (ncols P3)} = {0..<int (ncols P3)}"
  proof -
    have "{0..<int (ncols P3)} = {0, 1, 2}" by (auto simp: P3_def)
    then show ?thesis by (auto simp: swap01_def)
  qed
qed

lemma hyps_P3: "aligned [0, 0, 1, 1, 2, 2] P3 None" "column_labels [0, 0, 1, 1, 2, 2] P3"
  by (simp_all add: aligned_def column_labels_def P3_def)

text \<open>
  Claim C1, as stated: for every label vector with more than two observed classes that
  passes the validation, the score is the Hand and Till aggregate. It fails when a label
  is no column index: three observed classes 0, 1, 5 and three columns pass the
  validation, and the score raises IndexError at \<open>y_predictions[mask][:, 5]\<close>.
\<close>

theorem hand_till_counterexample:
  "card (set [0, 0, 1, 1, 5, 5::int]) = 3 \<and> ncols P3 = 3 \<and>
   mroc_auc_score Some roc_auc [0, 0, 1, 1, 5, 5] P3 None = Inl IndexError"
  by (simp add: card_001155 ncols_P3 score_P3_5)

text \<open>
  Claim C1, amended. For every label vector with more than two observed classes, all of
  them column indices \<open>0 \<le> c < ncols\<close> of the prediction matrix, and aligned with the
  rows of the matrix (as are the weights when given), the score is
  \<open>1 / (k * (k - 1))\<close> times the sum over all ordered pairs of distinct observed classes of
  the binary score on the rows labelled \<open>i\<close> or \<open>j\<close>, with membership in class \<open>i\<close> as the
  positive condition, column \<open>i\<close> as the scores and the weights of those rows.
\<close>

theorem hand_till_score:
  assumes "aligned y P w" and "column_labels y P" and "2 < card (set y)"
  shows "mroc_auc_score Some f y P w = Inr (hand_till f y P w)"
  using assms by (rule multi_score)

theorem hand_till_score_witness:
  "mroc_auc_score Some roc_auc [0, 0, 1, 1, 2, 2] P3 None =
     Inr (hand_till roc_auc [0, 0, 1, 1, 2, 2] P3 None) \<and>
   hand_till roc_auc [0, 0, 1, 1, 2, 2] P3 None = 43 / 48"
  using hand_till_score[OF hyps_P3, of roc_auc] card_001122 score_P3 by simp

text \<open>
  Claim C3, as stated: with at least three observed classes, a bijection applied to the
  label values, the prediction matrix unchanged, leaves the score unchanged. It fails:
  the labels select the columns, and exchanging the labels 0 and 1 changes the score
  from 43/48 to 31/48.
\<close>

theorem relabel_counterexample:
  "bij swap01 \<and>
   mroc_auc_score Some roc_auc (map swap01 [0, 0, 1, 1, 2, 2]) P3 None \<noteq>
     mroc_auc_score Some roc_auc [0, 0, 1, 1, 2, 2] P3 None"
proof -
  have "swap01 (swap01 c) = c" for c by (simp add: swap01_def)
  then have "bij swap01" by (rule involuntory_imp_bij)
  moreover have "map swap01 [0, 0, 1, 1, 2, 2] = [1, 1, 0, 0, 2, 2]" by (simp add: swap01_def)
  ultimately show ?thesis by (simp add: score_P3 score_P3_swapped)
qed

text \<open>
  Claim C3, amended. With at least three observed classes, all of them column indices,
  and a permutation \<open>\<sigma>\<close> of the column indices: the score of the relabelled vector on the
  matrix is the score of the original vector on the matrix whose columns are permuted
  by \<open>\<sigma>\<close>. Relabelling leaves the score unchanged when the columns move with the labels.
\<close>

theorem relabel_with_columns:
  assumes al: "aligned y P w" and cl: "column_labels y P"
    and bij: "bij_betw \<sigma> {0..<int (ncols P)} {0..<int (ncols P)}"
    and k: "2 < card (set y)"
  shows "mroc_auc_score Some f (map \<sigma> y) P w = mroc_auc_score Some f y (permute_columns \<sigma> P) w"
proof -
  let ?S = "{0..<int (ncols P)}"
  let ?P' = "permute_columns \<sigma> P"
  have inj: "inj_on \<sigma> ?S" and img: "\<sigma> ` ?S = ?S"
    using bij by (simp_all add: bij_betw_def)
  have sub: "set y \<subseteq> ?S" using cl by (auto simp: column_labels_def list_all_iff)
  have injy: "inj_on \<sigma> (set y)" using inj sub by (rule inj_on_subset)
  have card: "card (set (map \<sigma> y)) = card (set y)"
    using injy by (simp add: card_image)
  have al1: "aligned (map \<sigma> y) P w" using al by (simp add: aligned_def split: option.splits)
  have cl1: "column_labels (map \<sigma> y) P"
  proof -
    have "\<sigma> c \<in> ?S" if "c \<in> set y" for c
    proof -
      from that sub have "\<sigma> c \<in> \<sigma> ` ?S" by blast
      then show ?thesis unfolding img .
    qed
    then show ?thesis by (auto simp: column_labels_def list_all_iff)
  qed
  have al2: "aligned y ?P' w" using al by (simp add: aligned_def permute_columns_def)
  have cl2: "column_labels y ?P'" using cl by (simp add: column_labels_def permute_columns_def)
  have "(\<Sum>i' \<in> \<sigma> ` set y. \<Sum>j' \<in> \<sigma> ` set y - {i'}. pairwise_score f (map \<sigma> y) P w i' j') =
        (\<Sum>i \<in> set y. \<Sum>j' \<in> \<sigma> ` set y - {\<sigma> i}. pairwise_score f (map \<sigma> y) P w (\<sigma> i) j')"
    using injy by (simp add: sum.reindex)
  also have "\<dots> = (\<Sum>i \<in> set y. \<Sum>j \<in> set y - {i}. pairwise_score f (map \<sigma> y) P w (\<sigma> i) (\<sigma> j))"
  proof (rule sum.cong[OF refl])
    fix i assume i: "i \<in> set y"
    have "\<sigma> ` set y - {\<sigma> i} = \<sigma> ` (set y - {i})"
      using injy i by (auto dest: inj_onD)
    moreover have "inj_on \<sigma> (set y - {i})" using injy by (rule inj_on_subset) auto
    ultimately show "(\<Sum>j' \<in> \<sigma> ` set y - {\<sigma> i}. pairwise_score f (map \<sigma> y) P w (\<sigma> i) j') =
        (\<Sum>j \<in> set y - {i}. pairwise_score f (map \<sigma> y) P w (\<sigma> i) (\<sigma> j))"
      by (simp add: sum.reindex)
  qed
  also have "\<dots> = (\<Sum>i \<in> set y. \<Sum>j \<in> set y - {i}. pairwise_score f y ?P' w i j)"
    by (intro sum.cong refl pairwise_relabel[OF inj cl]) auto
  finally have "hand_till f (map \<sigma> y) P w = hand_till f y ?P' w"
    by (simp add: hand_till_def Let_def card del: set_map) (simp add: card)
  moreover have "mroc_auc_score Some f (map \<sigma> y) P w = Inr (hand_till f (map \<sigma> y) P w)"
    using al1 cl1 k by (intro multi_score) (simp_all only: card)
  moreover have "mroc_auc_score Some f y ?P' w = Inr (hand_till f y ?P' w)"
    using al2 cl2 k by (rule multi_score)
  ultimately show ?thesis by simp
qed

theorem relabel_with_columns_witness:
  "mroc_auc_score Some roc_auc (map swap01 [0, 0, 1, 1, 2, 2]) P3 None =
     mroc_auc_score Some roc_auc [0, 0, 1, 1, 2, 2] (permute_columns swap01 P3) None \<and>
   mroc_auc_score Some roc_auc (map swap01 [0, 0, 1, 1, 2, 2]) P3 None = Inr (31 / 48)"
  using relabel_with_columns[OF hyps_P3 bij_swap01, of roc_auc] card_001122 score_P3_swapped
  by (simp add: swap01_def)

section \<open>Properties of the density estimate\<close>

subsection \<open>Auxiliary facts\<close>

lemma length_linspace: "length (linspace a b n) = n"
  by (simp add: linspace_def Let_def)

lemma nth_linspace:
  assumes "1 < n" and "k < n"
  shows "linspace a b n ! k = a + real k * (b - a) / real (n - 1)"
proof (cases "k = n - 1")
  case True
  have "real (n - 1) \<noteq> 0" using assms by simp
  then have "a + real (n - 1) * (b - a) / real (n - 1) = b" by simp
  with True assms show ?thesis by (simp add: linspace_def Let_def)
next
  case False
  with assms show ?thesis by (simp add: linspace_def Let_def add.commute)
qed

lemma linspace_step:
  assumes "1 < n" and "Suc k < n"
  shows "linspace a b n ! Suc k - linspace a b n ! k = (b - a) / real (n - 1)"
proof -
  have "linspace a b n ! Suc k = a + real (Suc k) * (b - a) / real (n - 1)"
    using assms by (intro nth_linspace) simp_all
  moreover have "linspace a b n ! k = a + real k * (b - a) / real (n - 1)"
    using assms by (intro nth_linspace) simp_all
  ultimately show ?thesis by (simp add: algebra_simps add_divide_distrib diff_divide_distrib)
qed

lemma sorted_linspace:
  assumes "1 < n" and "a \<le> b"
  shows "sorted (linspace a b n)"
proof -
  have "linspace a b n ! i \<le> linspace a b n ! j" if "i \<le> j" "j < n" for i j
  proof -
    have "real i * (b - a) \<le> real j * (b - a)"
      using that assms by (intro mult_right_mono) simp_all
    then have "real i * (b - a) / real (n - 1) \<le> real j * (b - a) / real (n - 1)"
      using assms by (intro divide_right_mono) simp_all
    with that assms show ?thesis by (simp add: nth_linspace)
  qed
  then show ?thesis by (simp add: sorted_iff_nth_mono length_linspace)
qed

lemma grid_facts:
  "length (linspace lo hi 500) = 500"
  "linspace lo hi 500 ! 0 = lo"
  "linspace lo hi 500 ! 499 = hi"
  "\<forall>k<499. linspace lo hi 500 ! Suc k - linspace lo hi 500 ! k = (hi - lo) / 499"
  "lo \<le> hi \<longrightarrow> sorted (linspace lo hi 500)"
proof -
  show "length (linspace lo hi 500) = 500" by (rule length_linspace)
  show "linspace lo hi 500 ! 0 = lo" by (simp add: nth_linspace)
  show "linspace lo hi 500 ! 499 = hi" by (simp add: nth_linspace diff_divide_distrib)
  show "\<forall>k<499. linspace lo hi 500 ! Suc k - linspace lo hi 500 ! k = (hi - lo) / 499"
    using linspace_step[of 500 _ lo hi] by simp
  show "lo \<le> hi \<longrightarrow> sorted (linspace lo hi 500)"
    using sorted_linspace[of 500 lo hi] by simp
qed

lemma density_unfold:
  "format_proba_density ar kde data w lo hi =
     (if data = [] then Inr []
      else case kde (silverman_bandwidth ar data) data (fit_weights data w) of
             Inl e \<Rightarrow> Inl e
           | Inr d \<Rightarrow>
               Inr (zip (linspace lo hi 500) (map (\<lambda>x. nan_to_zero (d x)) (linspace lo hi 500))))"
proof -
  have "(\<lambda>v. if \<not> isnan v then v else Finite 0) = nan_to_zero"
    by (auto simp: isnan_def nan_to_zero_def fun_eq_iff)
  then show ?thesis
    by (simp add: format_proba_density_def silverman_bandwidth_def fit_weights_def Let_def
        length_unique comp_def nan_to_zero_def isnan_def split: sum.splits)
qed

lemma density_Inr:
  assumes "data \<noteq> []" and "kde (silverman_bandwidth ar data) data (fit_weights data w) = Inr d"
  shows "format_proba_density ar kde data w lo hi =
     Inr (zip (linspace lo hi 500) (map (\<lambda>x. nan_to_zero (d x)) (linspace lo hi 500)))"
  using assms by (simp add: density_unfold)

lemma density_Inl:
  assumes "data \<noteq> []" and "kde (silverman_bandwidth ar data) data (fit_weights data w) = Inl e"
  shows "format_proba_density ar kde data w lo hi = Inl e"
  using assms by (simp add: density_unfold)

lemma nth_density:
  assumes "k < 500"
  shows "zip (linspace lo hi 500) (map (\<lambda>x. nan_to_zero (d x)) (linspace lo hi 500)) ! k =
     (linspace lo hi 500 ! k, nan_to_zero (d (linspace lo hi 500 ! k)))"
  using assms by (simp add: length_linspace)

lemma std_11: "std [1, 1] = 0"
  by (simp add: std_def Let_def)

lemma std_02: "std [0, 2] = 1"
  by (simp add: std_def Let_def)

lemma bandwidth_11: "silverman_bandwidth exact [1, 1] = Finite 0.06"
  by (simp add: silverman_bandwidth_def exact_def std_11)

lemma bandwidth_02: "silverman_bandwidth exact [0, 2] = Finite (1.06 * 2 powr (- 0.2))"
  by (simp add: silverman_bandwidth_def exact_def std_02 Let_def)

lemma bandwidth_tenths:
  "silverman_bandwidth (with_std (Finite (1.3877787807814457 / 10 ^ 17))) [0.1, 0.1, 0.1] =
     Finite (1.06 * (1.3877787807814457 / 10 ^ 17) * 3 powr (- 0.2))"
  by (simp add: silverman_bandwidth_def with_std_def exact_def Let_def zero_less_mult_iff)

lemma bandwidth_overflow: "data \<noteq> [] \<Longrightarrow> silverman_bandwidth (with_std PInf) data = PInf"
  by (simp add: silverman_bandwidth_def with_std_def exact_def Let_def times_inf_def)

lemma weights_11: "fit_weights [1, 1] w = None"
  by (simp add: fit_weights_def)

lemma weights_02: "fit_weights [0, 2] w = w"
  by (simp add: fit_weights_def)

lemma flat_02_None:
  "flat (silverman_bandwidth exact [0, 2]) [0, 2] (fit_weights [0, 2] None) = Inr (\<lambda>x. Finite 1)"
  by (simp add: flat_def validate_def weights_02 bandwidth_02 zero_less_mult_iff)

lemma flat_02_misaligned:
  "flat (silverman_bandwidth exact [0, 2]) [0, 2] (fit_weights [0, 2] (Some [1])) =
     Inl (ValueError ''sample_weight has the wrong shape'')"
  by (simp add: flat_def validate_def weights_02 bandwidth_02 zero_less_mult_iff)

lemma flat_overflow:
  "data \<noteq> [] \<Longrightarrow> flat (silverman_bandwidth (with_std PInf) data) data w' =
     Inl (ValueError ''bandwidth must be a positive finite number'')"
  by (simp add: flat_def validate_def bandwidth_overflow)

lemma spiky_11:
  "spiky (silverman_bandwidth exact [1, 1]) [1, 1] (fit_weights [1, 1] None) =
     Inr (\<lambda>x. if x = 0 then NaN else Finite 0.06)"
  by (simp add: spiky_def validate_def weights_11 bandwidth_11 fun_eq_iff)

lemma gaussian_11:
  "gaussian (silverman_bandwidth exact [1, 1]) [1, 1] (fit_weights [1, 1] None) =
     Inr (\<lambda>x. Finite (gaussian_density 0.06 [1, 1] [1, 1] x))"
  by (simp add: gaussian_def validate_def weights_11 bandwidth_11 fun_eq_iff)

lemma gaussian_density_at_1:
  "gaussian_density 0.06 [1, 1] [1, 1] 1 = 1 / (0.06 * sqrt (2 * pi))"
  by (simp add: gaussian_density_def)

lemma gaussian_no_infinity:
  assumes "gaussian h data w = Inr d"
  shows "d x \<noteq> PInf \<and> d x \<noteq> MInf"
  using assms by (auto simp: gaussian_def split: option.splits fl.splits)

subsection \<open>Bandwidth and weights\<close>

text \<open>
  Claim C5. For every data array, \<open>format_proba_density\<close> fits the estimator with the
  bandwidth \<open>h = 1.06 * stddev(data) * n ^ (-0.2)\<close> as the float arithmetic computes it,
  with 0.06 in its place whenever that value is \<open><= 0\<close>, and with no weights exactly when
  the data holds a single distinct value, the given weights otherwise. This holds for
  every float arithmetic and every estimator: the result is what the estimator fitted
  with that bandwidth and those weights gives on the grid (its error, when the fit
  raises), and for empty data no estimator is fitted.
\<close>

theorem bandwidth_and_weights:
  "format_proba_density ar kde data w lo hi =
     (if data = [] then Inr []
      else case kde (silverman_bandwidth ar data) data (fit_weights data w) of
             Inl e \<Rightarrow> Inl e
           | Inr d \<Rightarrow>
               Inr (zip (linspace lo hi 500)
                      (map (\<lambda>x. nan_to_zero (d x)) (linspace lo hi 500)))) \<and>
   silverman_bandwidth ar data =
     (if le_zero (float_mul ar (float_mul ar (Finite 1.06) (np_std ar data))
                    (math_pow ar (length data) (- 0.2)))
      then Finite 0.06
      else float_mul ar (float_mul ar (Finite 1.06) (np_std ar data))
             (math_pow ar (length data) (- 0.2))) \<and>
   fit_weights data w = (if card (set data) = 1 then None else w)"
  by (simp add: density_unfold silverman_bandwidth_def fit_weights_def Let_def)

theorem bandwidth_and_weights_witness:
  "format_proba_density exact flat [1, 1] (Some [2, 3, 4]) 0 1 =
     Inr (zip (linspace 0 1 500) (map (\<lambda>x. Finite 1) (linspace 0 1 500))) \<and>
   format_proba_density exact flat [0, 2] (Some [1]) 0 1 =
     Inl (ValueError ''sample_weight has the wrong shape'') \<and>
   format_proba_density (with_std PInf) flat [0, 2] None 0 1 =
     Inl (ValueError ''bandwidth must be a positive finite number'') \<and>
   silverman_bandwidth exact [1, 1] = Finite 0.06 \<and>
   silverman_bandwidth exact [0, 2] = Finite (1.06 * 2 powr (- 0.2)) \<and>
   silverman_bandwidth (with_std (Finite (1.3877787807814457 / 10 ^ 17))) [0.1, 0.1, 0.1] =
     Finite (1.06 * (1.3877787807814457 / 10 ^ 17) * 3 powr (- 0.2))"
proof -
  have f: "flat (silverman_bandwidth exact [1, 1]) [1, 1] (fit_weights [1, 1] (Some [2, 3, 4])) =
      Inr (\<lambda>x. Finite 1)"
    by (simp add: flat_def validate_def bandwidth_11 weights_11)
  have n: "[1, 1] \<noteq> ([]::real list)" "[0, 2] \<noteq> ([]::real list)" by simp_all
  from bandwidth_and_weights[of exact flat "[1, 1]" "Some [2, 3, 4]" 0 1, THEN conjunct1]
  have a: "format_proba_density exact flat [1, 1] (Some [2, 3, 4]) 0 1 =
      Inr (zip (linspace 0 1 500) (map (\<lambda>x. Finite 1) (linspace 0 1 500)))"
    by (simp only: f n if_False sum.case nan_to_zero_def fl.distinct)
  from bandwidth_and_weights[of exact flat "[0, 2]" "Some [1]" 0 1, THEN conjunct1]
  have b: "format_proba_density exact flat [0, 2] (Some [1]) 0 1 =
      Inl (ValueError ''sample_weight has the wrong shape'')"
    by (simp only: flat_02_misaligned n if_False sum.case)
  from bandwidth_and_weights[of "with_std PInf" flat "[0, 2]" None 0 1, THEN conjunct1]
  have c: "format_proba_density (with_std PInf) flat [0, 2] None 0 1 =
      Inl (ValueError ''bandwidth must be a positive finite number'')"
    by (simp only: flat_overflow[OF n(2)] n if_False sum.case)
  from a b c bandwidth_11 bandwidth_02 bandwidth_tenths show ?thesis by blast
qed

subsection \<open>The grid\<close>

text \<open>
  Claim C6. For empty data the result is the empty sequence, whatever the support
  bounds. For non-empty data, when the estimator's fit returns, the result has exactly
  500 pairs; their x-coordinates start at \<open>min_support\<close>, end at \<open>max_support\<close>, are evenly
  spaced (each step is \<open>(max_support - min_support) / 499\<close>) and, for the inferior and
  superior bounds of a support, \<open>min_support \<le> max_support\<close>, nondecreasing. An error of
  the fit is the result as it is.
\<close>

theorem grid_shape:
  "format_proba_density ar kde [] w lo hi = Inr [] \<and>
   (data \<noteq> [] \<and> kde (silverman_bandwidth ar data) data (fit_weights data w) = Inl e \<longrightarrow>
      format_proba_density ar kde data w lo hi = Inl e) \<and>
   (data \<noteq> [] \<and> kde (silverman_bandwidth ar data) data (fit_weights data w) = Inr d \<longrightarrow>
      (\<exists>ps. format_proba_density ar kde data w lo hi = Inr ps \<and> length ps = 500 \<and>
         (let xs = map fst ps
          in xs ! 0 = lo \<and> xs ! 499 = hi \<and>
             (\<forall>k<499. xs ! Suc k - xs ! k = (hi - lo) / 499) \<and>
             (lo \<le> hi \<longrightarrow> sorted xs))))"
proof (intro conjI impI)
  show "format_proba_density ar kde [] w lo hi = Inr []" by (simp add: density_unfold)
next
  assume "data \<noteq> [] \<and> kde (silverman_bandwidth ar data) data (fit_weights data w) = Inl e"
  then show "format_proba_density ar kde data w lo hi = Inl e" by (simp add: density_Inl)
next
  let ?ps = "zip (linspace lo hi 500) (map (\<lambda>x. nan_to_zero (d x)) (linspace lo hi 500))"
  assume "data \<noteq> [] \<and> kde (silverman_bandwidth ar data) data (fit_weights data w) = Inr d"
  then have r: "format_proba_density ar kde data w lo hi = Inr ?ps" by (simp add: density_Inr)
  have xs: "map fst ?ps = linspace lo hi 500" by (simp add: length_linspace)
  have len: "length ?ps = 500" by (simp add: length_linspace)
  have "let xs = map fst ?ps
        in xs ! 0 = lo \<and> xs ! 499 = hi \<and>
           (\<forall>k<499. xs ! Suc k - xs ! k = (hi - lo) / 499) \<and>
           (lo \<le> hi \<longrightarrow> sorted xs)"
    unfolding Let_def xs using grid_facts[of lo hi] by blast
  with r len show "\<exists>ps. format_proba_density ar kde data w lo hi = Inr ps \<and> length ps = 500 \<and>
         (let xs = map fst ps
          in xs ! 0 = lo \<and> xs ! 499 = hi \<and>
             (\<forall>k<499. xs ! Suc k - xs ! k = (hi - lo) / 499) \<and>
             (lo \<le> hi \<longrightarrow> sorted xs))"
    by blast
qed

theorem grid_shape_witness:
  "format_proba_density exact flat [] None 0 1 = Inr [] \<and>
   format_proba_density exact flat [0, 2] (Some [1]) 0 1 =
     Inl (ValueError ''sample_weight has the wrong shape'') \<and>
   (\<exists>ps. format_proba_density exact flat [0, 2] None 0 1 = Inr ps \<and> length ps = 500 \<and>
      map fst ps ! 0 = 0 \<and> map fst ps ! 499 = 1 \<and>
      map fst ps ! Suc 7 - map fst ps ! 7 = 1 / 499 \<and> sorted (map fst ps))"
proof -
  have d: "[0, 2] \<noteq> ([]::real list)" and le: "(0::real) \<le> 1" by simp_all
  note k1 = flat_02_misaligned and k2 = flat_02_None
  from grid_shape[of exact flat None 0 1 "[0, 2]" undefined "\<lambda>x. Finite 1"] d le k2
  obtain ps where ps: "format_proba_density exact flat [0, 2] None 0 1 = Inr ps"
    "length ps = 500" "map fst ps ! 0 = 0" "map fst ps ! 499 = 1"
    "\<forall>k<499. map fst ps ! Suc k - map fst ps ! k = (1 - 0) / 499" "sorted (map fst ps)"
    unfolding Let_def by blast
  from ps(5) have "(7::nat) < 499 \<longrightarrow> map fst ps ! Suc 7 - map fst ps ! 7 = (1 - 0) / 499"
    by (rule spec)
  then have s: "map fst ps ! Suc 7 - map fst ps ! 7 = 1 / 499" by simp
  from grid_shape[of exact flat "Some [1]" 0 1 "[0, 2]"
      "ValueError ''sample_weight has the wrong shape''" undefined] d k1
  have e: "format_proba_density exact flat [0, 2] (Some [1]) 0 1 =
      Inl (ValueError ''sample_weight has the wrong shape'')"
    by blast
  from grid_shape[of exact flat None 0 1 "[0, 2]" undefined undefined]
  have n: "format_proba_density exact flat [] None 0 1 = Inr []" by blast
  from n e ps(1-4,6) s show ?thesis by blast
qed

subsection \<open>Not-a-number\<close>

text \<open>
  Claim C7. The code replaces a density value by 0 when \<open>np.isnan\<close> holds of it. The
  estimator's values are densities of a Gaussian kernel estimate, at most
  \<open>1 / (h * sqrt(2 * pi))\<close>, and never infinite; for every estimator without infinite
  values, every density value that is not finite is returned as 0, nothing is raised for
  it, and every finite value is returned unchanged.
\<close>

theorem nan_coerced_to_zero:
  assumes "data \<noteq> []"
    and "kde (silverman_bandwidth ar data) data (fit_weights data w) = Inr d"
    and "\<forall>x. d x \<noteq> PInf \<and> d x \<noteq> MInf"
  shows "\<exists>ps. format_proba_density ar kde data w lo hi = Inr ps \<and> length ps = 500 \<and>
     (\<forall>k<500. snd (ps ! k) =
        (if isfinite (d (fst (ps ! k))) then d (fst (ps ! k)) else Finite 0))"
proof -
  let ?ps = "zip (linspace lo hi 500) (map (\<lambda>x. nan_to_zero (d x)) (linspace lo hi 500))"
  have r: "format_proba_density ar kde data w lo hi = Inr ?ps"
    using assms(1,2) by (rule density_Inr)
  have len: "length ?ps = 500" by (simp add: length_linspace)
  have v: "nan_to_zero (d x) = (if isfinite (d x) then d x else Finite 0)" for x
    using assms(3) by (cases "d x") (auto simp: nan_to_zero_def)
  have "\<forall>k<500. snd (?ps ! k) =
      (if isfinite (d (fst (?ps ! k))) then d (fst (?ps ! k)) else Finite 0)"
  proof (intro allI impI)
    fix k :: nat
    assume "k < 500"
    then have "?ps ! k = (linspace lo hi 500 ! k, nan_to_zero (d (linspace lo hi 500 ! k)))"
      by (rule nth_density)
    then show "snd (?ps ! k) =
        (if isfinite (d (fst (?ps ! k))) then d (fst (?ps ! k)) else Finite 0)"
      by (simp only: fst_conv snd_conv v)
  qed
  with r len show ?thesis by blast
qed

theorem nan_coerced_to_zero_witness:
  "(\<exists>ps. format_proba_density exact spiky [1, 1] None 0 1 = Inr ps \<and> length ps = 500 \<and>
      fst (ps ! 0) = 0 \<and> snd (ps ! 0) = Finite 0 \<and>
      fst (ps ! 499) = 1 \<and> snd (ps ! 499) = Finite 0.06) \<and>
   (\<exists>ps. format_proba_density exact gaussian [1, 1] None 0 1 = Inr ps \<and> length ps = 500 \<and>
      fst (ps ! 499) = 1 \<and> snd (ps ! 499) = Finite (1 / (0.06 * sqrt (2 * pi))))"
proof -
  let ?d = "\<lambda>x::real. if x = 0 then NaN else Finite 0.06"
  let ?g = "\<lambda>x::real. Finite (gaussian_density 0.06 [1, 1] [1, 1] x)"
  have d: "[1, 1] \<noteq> ([]::real list)" by simp
  have n: "\<forall>x. ?d x \<noteq> PInf \<and> ?d x \<noteq> MInf" by simp
  from nan_coerced_to_zero[of "[1, 1]" spiky exact None ?d 0 1] d spiky_11 n
  obtain ps where ps: "format_proba_density exact spiky [1, 1] None 0 1 = Inr ps"
    "length ps = 500"
    "\<forall>k<500. snd (ps ! k) = (if isfinite (?d (fst (ps ! k))) then ?d (fst (ps ! k)) else Finite 0)"
    by blast
  have "ps = zip (linspace 0 1 500) (map (\<lambda>x. nan_to_zero (?d x)) (linspace 0 1 500))"
    using ps(1) density_Inr[of "[1, 1]" spiky exact None ?d 0 1] d spiky_11 by simp
  then have f: "fst (ps ! 0) = 0" "fst (ps ! 499) = 1"
    using grid_facts(2,3)[of 0 1] by (simp_all add: nth_density)
  from ps(3) have "(0::nat) < 500 \<longrightarrow> snd (ps ! 0) =
      (if isfinite (?d (fst (ps ! 0))) then ?d (fst (ps ! 0)) else Finite 0)"
    by (rule spec)
  with f have s0: "snd (ps ! 0) = Finite 0" by simp
  from ps(3) have "(499::nat) < 500 \<longrightarrow> snd (ps ! 499) =
      (if isfinite (?d (fst (ps ! 499))) then ?d (fst (ps ! 499)) else Finite 0)"
    by (rule spec)
  with f have s1: "snd (ps ! 499) = Finite 0.06" by simp
  have ng: "\<forall>x. ?g x \<noteq> PInf \<and> ?g x \<noteq> MInf"
    using gaussian_no_infinity[OF gaussian_11] by blast
  from nan_coerced_to_zero[of "[1, 1]" gaussian exact None ?g 0 1] d gaussian_11 ng
  obtain qs where qs: "format_proba_density exact gaussian [1, 1] None 0 1 = Inr qs"
    "length qs = 500"
    "\<forall>k<500. snd (qs ! k) = (if isfinite (?g (fst (qs ! k))) then ?g (fst (qs ! k)) else Finite 0)"
    by blast
  have "qs = zip (linspace 0 1 500) (map (\<lambda>x. nan_to_zero (?g x)) (linspace 0 1 500))"
    using qs(1) density_Inr[of "[1, 1]" gaussian exact None ?g 0 1] d gaussian_11 by simp
  then have g: "fst (qs ! 499) = 1"
    using grid_facts(3)[of 0 1] by (simp add: nth_density)
  from qs(3) have "(499::nat) < 500 \<longrightarrow> snd (qs ! 499) =
      (if isfinite (?g (fst (qs ! 499))) then ?g (fst (qs ! 499)) else Finite 0)"
    by (rule spec)
  with g have "snd (qs ! 499) = ?g 1" by simp
  then have t1: "snd (qs ! 499) = Finite (1 / (0.06 * sqrt (2 * pi)))"
    by (simp only: gaussian_density_at_1)
  from ps(1,2) f s0 s1 qs(1,2) g t1 show ?thesis by blast
qed

section \<open>Properties of the surrogate model\<close>

subsection \<open>Auxiliary facts\<close>

lemma fit_Inr:
  assumes "preprocess df t = Inr (train, test)"
    and "drop_column train t = Inr train_X"
    and "get_column train t = Inr train_Y"
    and "clf_fit (clf m) train_X train_Y = Inr est"
  shows "fit preprocess clf_fit m df t = Inr (m\<lparr>clf := est, feature_names := Some (columns train_X)\<rparr>)"
  using assms by (simp add: fit_def)





lemma check_Inl:
  "ptype \<noteq> CLASSIFICATION_TYPE tags \<Longrightarrow> ptype \<noteq> REGRRSSION_TYPE tags \<Longrightarrow>
   check tags ptype =
     Inl (ValueError ''Prediction type must either be CLASSIFICATION or REGRESSION.'')"
  by (simp add: check_def)

lemma check_Inr:
  "ptype = CLASSIFICATION_TYPE tags \<or> ptype = REGRRSSION_TYPE tags \<Longrightarrow>
   check tags ptype = Inr ()"
  by (auto simp: check_def)




lemma fit1:
  "fit (Preprocessor id 2) memorise
     \<lparr>feature_names = None, target = None, prediction_type = ''CLASSIFICATION'',
      clf = RandomForestClassifier 1407 None\<rparr> df1 ''label'' = Inr fitted1"
  by (simp add: fit_def Preprocessor_def drop_column_def get_column_def memorise_def df1_def
      fitted1_def)

lemma fit2: "fit (Preprocessor id 1) memorise fitted1 df2 ''y'' = Inr fitted2"
  by (simp add: fit_def Preprocessor_def drop_column_def get_column_def memorise_def df2_def
      fitted1_def fitted2_def)

subsection \<open>Construction\<close>

text \<open>
  Claim C8. Constructing a \<open>SurrogateModel\<close> with a prediction type that is neither of the
  two recognised tags raises ValueError, and no estimator has been constructed then (the
  list of constructed estimators is as before); with the classification tag the
  construction succeeds with a classifier, with the regression tag with a regressor, no
  feature list recorded yet.
\<close>

theorem construction_checks_type:
  "(ptype \<noteq> CLASSIFICATION_TYPE tags \<and> ptype \<noteq> REGRRSSION_TYPE tags \<longrightarrow>
      SurrogateModel tags ptype allocated =
        (Inl (ValueError ''Prediction type must either be CLASSIFICATION or REGRESSION.''),
         allocated)) \<and>
   (ptype = CLASSIFICATION_TYPE tags \<longrightarrow>
      SurrogateModel tags ptype allocated =
        (Inr \<lparr>feature_names = None, target = None, prediction_type = ptype,
               clf = RandomForestClassifier 1407 None\<rparr>,
         allocated @ [RandomForestClassifier 1407 None])) \<and>
   (ptype = REGRRSSION_TYPE tags \<and> ptype \<noteq> CLASSIFICATION_TYPE tags \<longrightarrow>
      SurrogateModel tags ptype allocated =
        (Inr \<lparr>feature_names = None, target = None, prediction_type = ptype,
               clf = RandomForestRegressor 1407 None\<rparr>,
         allocated @ [RandomForestRegressor 1407 None]))"
  by (simp add: SurrogateModel_def check_Inl check_Inr Let_def)

theorem construction_checks_type_witness:
  "SurrogateModel constants ''RANKING'' ([] :: unit estimator list) =
     (Inl (ValueError ''Prediction type must either be CLASSIFICATION or REGRESSION.''), []) \<and>
   SurrogateModel constants ''CLASSIFICATION'' ([] :: unit estimator list) =
     (Inr \<lparr>feature_names = None, target = None, prediction_type = ''CLASSIFICATION'',
            clf = RandomForestClassifier 1407 None\<rparr>,
      [RandomForestClassifier 1407 None]) \<and>
   SurrogateModel constants ''REGRESSION'' ([] :: unit estimator list) =
     (Inr \<lparr>feature_names = None, target = None, prediction_type = ''REGRESSION'',
            clf = RandomForestRegressor 1407 None\<rparr>,
      [RandomForestRegressor 1407 None])"
  using construction_checks_type[of "''RANKING''" constants "[] :: unit estimator list"]
    construction_checks_type[of "''CLASSIFICATION''" constants "[] :: unit estimator list"]
    construction_checks_type[of "''REGRESSION''" constants "[] :: unit estimator list"]
  by (simp add: constants_def)

subsection \<open>The feature list\<close>



subsection \<open>A second fit\<close>

text \<open>
  Claim C10. \<open>fit\<close> does not look at the recorded feature list: whatever has been recorded
  before (\<open>previous\<close>, a list after an earlier fit), a call whose preprocessing and estimator
  fit succeed is accepted; it fits the estimator the instance holds and records the
  feature columns of this call's train partition, so that \<open>get_features\<close> returns those
  and nothing of the earlier fit.
\<close>

theorem refit_replaces_features:
  assumes "preprocess table2 target2 = Inr (train, test)"
    and "drop_column train target2 = Inr train_X"
    and "get_column train target2 = Inr train_Y"
    and "clf_fit (clf m) train_X train_Y = Inr est"
  shows "fit preprocess clf_fit (m\<lparr>feature_names := previous\<rparr>) table2 target2 =
           Inr (m\<lparr>clf := est,
                  feature_names := Some (filter (\<lambda>c. c \<noteq> target2) (columns train))\<rparr>) \<and>
         get_features (m\<lparr>clf := est,
                  feature_names := Some (filter (\<lambda>c. c \<noteq> target2) (columns train))\<rparr>) =
           Some (filter (\<lambda>c. c \<noteq> target2) (columns train))"
proof -
  from assms(2) have cols: "columns train_X = filter (\<lambda>c. c \<noteq> target2) (columns train)"
    by (auto simp: drop_column_def split: if_splits)
  have "clf_fit (clf (m\<lparr>feature_names := previous\<rparr>)) train_X train_Y = Inr est"
    using assms(4) by simp
  with assms(1-3) have "fit preprocess clf_fit (m\<lparr>feature_names := previous\<rparr>) table2 target2 =
      Inr (m\<lparr>feature_names := previous\<rparr>\<lparr>clf := est, feature_names := Some (columns train_X)\<rparr>)"
    by (rule fit_Inr)
  with cols show ?thesis by (simp add: get_features_def)
qed

theorem refit_replaces_features_witness:
  "get_features fitted1 = Some [''age'', ''income''] \<and>
   fit (Preprocessor id 1) memorise fitted1 df2 ''y'' =
     Inr (fitted1\<lparr>clf := RandomForestClassifier 1407
            (Some (\<lparr>columns = [''height''], cells = [[170]]\<rparr>, [1])),
          feature_names := Some [''height'']\<rparr>) \<and>
   get_features fitted2 = Some [''height'']"
  using refit_replaces_features[where preprocess = "Preprocessor id 1" and ?table2.0 = df2
      and ?target2.0 = "''y''"
      and train = "\<lparr>columns = [''y'', ''height''], cells = [[1, 170]]\<rparr>"
      and test = "\<lparr>columns = [''y'', ''height''], cells = [[0, 182]]\<rparr>"
      and train_X = "\<lparr>columns = [''height''], cells = [[170]]\<rparr>" and train_Y = "[1]"
      and clf_fit = memorise and m = fitted1
      and previous = "Some [''age'', ''income'']"
      and est = "RandomForestClassifier 1407
        (Some (\<lparr>columns = [''height''], cells = [[170]]\<rparr>, [1]))"]
  by (simp add: Preprocessor_def drop_column_def get_column_def memorise_def df2_def
      fitted1_def fitted2_def get_features_def)


end
